theory Spec2Isabelle
  imports Main "HOL-Library.AList"
begin

section \<open>JavaScript values\<close>

text \<open>
  The cache of the TMDB client stores decoded API responses, which are JSON values.
  Numbers are modelled as integers (identifiers, page numbers, millisecond timestamps
  and durations); fractions, \<open>NaN\<close> as a stored value and the exponent notation of very
  large numbers are outside the model.  A value that may be \<open>undefined\<close> is a
  \<open>json option\<close>, with \<open>None\<close> for \<open>undefined\<close>; \<open>null\<close> is \<open>Some JNull\<close>.
\<close>

datatype json =
    JNull
  | JBool bool
  | JNum int
  | JStr string
  | JArr "json list"
  | JObj "(string \<times> json) list"

type_synonym jsval = "json option"

abbreviation undefined_val :: jsval where
  "undefined_val \<equiv> None"

abbreviation null :: jsval where
  "null \<equiv> Some JNull"

datatype js_error =
    SyntaxError
  | TypeError
  | QuotaExceededError
  | NetworkError string
  | Error string

text \<open>\<open>Boolean(v)\<close>: \<open>undefined\<close>, \<open>null\<close>, \<open>false\<close>, \<open>0\<close> and the empty string are falsy.\<close>

fun truthy :: "jsval \<Rightarrow> bool" where
  "truthy None = False"
| "truthy (Some JNull) = False"
| "truthy (Some (JBool b)) = b"
| "truthy (Some (JNum n)) = (n \<noteq> 0)"
| "truthy (Some (JStr s)) = (s \<noteq> [])"
| "truthy (Some (JArr xs)) = True"
| "truthy (Some (JObj kvs)) = True"

text \<open>
  Property read \<open>v.name\<close>.  On \<open>undefined\<close> and \<open>null\<close> it throws a TypeError; on an
  object it is the stored value or \<open>undefined\<close>; on the other values it is
  \<open>undefined\<close> for the names read in this module (\<open>data\<close>, \<open>timestamp\<close>, \<open>ttl\<close>,
  \<open>status_message\<close>), none of which is a built-in property.
\<close>

fun field :: "json \<Rightarrow> string \<Rightarrow> jsval" where
  "field (JObj kvs) name = map_of kvs name"
| "field v name = None"

fun get_prop :: "jsval \<Rightarrow> string \<Rightarrow> js_error + jsval" where
  "get_prop None name = Inl TypeError"
| "get_prop (Some JNull) name = Inl TypeError"
| "get_prop (Some v) name = Inr (field v name)"

subsection \<open>Rendering and reading numbers\<close>

definition digit_char :: "nat \<Rightarrow> char" where
  "digit_char d = char_of (48 + d)"

fun string_of_nat :: "nat \<Rightarrow> string" where
  "string_of_nat n =
     (if n < 10 then [digit_char n] else string_of_nat (n div 10) @ [digit_char (n mod 10)])"

declare string_of_nat.simps [simp del]

definition decimal :: "int \<Rightarrow> string" where
  "decimal i = (if i < 0 then CHR ''-'' # string_of_nat (nat (- i)) else string_of_nat (nat i))"

text \<open>\<open>Array.prototype.join\<close> on strings already rendered.\<close>

fun join :: "string \<Rightarrow> string list \<Rightarrow> string" where
  "join sep [] = []"
| "join sep [x] = x"
| "join sep (x # y # ys) = x @ sep @ join sep (y # ys)"

text \<open>\<open>String(v)\<close>; inside an array, \<open>null\<close> renders as the empty string.\<close>

fun toString :: "json \<Rightarrow> string" where
  "toString JNull = ''null''"
| "toString (JBool b) = (if b then ''true'' else ''false'')"
| "toString (JNum n) = decimal n"
| "toString (JStr s) = s"
| "toString (JArr xs) = join '','' (map (\<lambda>x. if x = JNull then [] else toString x) xs)"
| "toString (JObj kvs) = ''[object Object]''"

definition js_String :: "jsval \<Rightarrow> string" where
  "js_String v = (case v of None \<Rightarrow> ''undefined'' | Some x \<Rightarrow> toString x)"

text \<open>
  \<open>Number(s)\<close> for a string: surrounding blanks are dropped, the empty string is \<open>0\<close>,
  an optionally signed run of decimal digits is its value, and everything else is
  \<open>NaN\<close> (\<open>None\<close>).  The other spellings of a number (a fraction, an exponent, a
  hexadecimal literal, \<open>Infinity\<close>) are outside the integer model; the module itself
  only ever stores numbers, never strings, as \<open>timestamp\<close> and \<open>ttl\<close>.
\<close>

definition is_blank :: "char \<Rightarrow> bool" where
  "is_blank c = (c \<in> set [CHR '' '', CHR 0x09, CHR 0x0A, CHR 0x0B, CHR 0x0C, CHR 0x0D])"

definition trim :: "string \<Rightarrow> string" where
  "trim s = rev (dropWhile is_blank (rev (dropWhile is_blank s)))"

definition digit_val :: "char \<Rightarrow> nat option" where
  "digit_val c =
     (let code = (of_char c :: nat)
      in if 48 \<le> code \<and> code \<le> 57 then Some (code - 48) else None)"

fun digits_val :: "nat \<Rightarrow> string \<Rightarrow> nat option" where
  "digits_val acc [] = Some acc"
| "digits_val acc (c # cs) =
     (case digit_val c of None \<Rightarrow> None | Some d \<Rightarrow> digits_val (10 * acc + d) cs)"

definition unsigned_val :: "string \<Rightarrow> int option" where
  "unsigned_val s = (if s = [] then None else map_option int (digits_val 0 s))"

definition strToNumber :: "string \<Rightarrow> int option" where
  "strToNumber s =
     (case trim s of
        [] \<Rightarrow> Some 0
      | c # cs \<Rightarrow>
          if c = CHR ''-'' then map_option uminus (unsigned_val cs)
          else if c = CHR ''+'' then unsigned_val cs
          else unsigned_val (c # cs))"

text \<open>\<open>Number(v)\<close>, with \<open>None\<close> for \<open>NaN\<close>.\<close>

fun toNumber :: "jsval \<Rightarrow> int option" where
  "toNumber None = None"
| "toNumber (Some JNull) = Some 0"
| "toNumber (Some (JBool b)) = Some (if b then 1 else 0)"
| "toNumber (Some (JNum n)) = Some n"
| "toNumber (Some v) = strToNumber (toString v)"

text \<open>\<open>a - b\<close> and \<open>a < b\<close> on numbers that may be \<open>NaN\<close>.\<close>

fun js_minus :: "int option \<Rightarrow> int option \<Rightarrow> int option" where
  "js_minus (Some a) (Some b) = Some (a - b)"
| "js_minus a b = None"

fun js_less :: "int option \<Rightarrow> int option \<Rightarrow> bool" where
  "js_less (Some a) (Some b) = (a < b)"
| "js_less a b = False"

section \<open>Cache keys\<close>

text \<open>
  \<^verbatim>\<open>const createCacheKey = (...parts) => parts.filter(Boolean).join(':');\<close>
\<close>

text \<open>
  \<open>join\<close> renders each element with \<open>String\<close>, but \<open>undefined\<close> and \<open>null\<close> as the empty
  string.
\<close>

definition render :: "jsval \<Rightarrow> string" where
  "render p = (case p of None \<Rightarrow> [] | Some JNull \<Rightarrow> [] | Some v \<Rightarrow> toString v)"

definition createCacheKey :: "jsval list \<Rightarrow> string" where
  "createCacheKey parts = join '':'' (map render (filter truthy parts))"

section \<open>The JSON codec and the persistent store\<close>

text \<open>
  \<open>localStorage\<close> maps strings to strings.  The module only ever hands a stored string
  to \<open>JSON.parse\<close> (after testing it for emptiness), so a stored string is represented
  by what \<open>JSON.parse\<close> makes of it: \<open>Text v\<close> is a string that decodes to the value
  \<open>v\<close>, as \<open>JSON.stringify v\<close> is, and \<open>Garbage s\<close> is a string \<open>s\<close> on which
  \<open>JSON.parse\<close> throws a SyntaxError; the empty string is \<open>Garbage []\<close>.
\<close>

datatype stored = Text json | Garbage string

fun JSON_parse :: "stored \<Rightarrow> js_error + json" where
  "JSON_parse (Text v) = Inr v"
| "JSON_parse (Garbage s) = Inl SyntaxError"

definition JSON_stringify :: "json \<Rightarrow> stored" where
  "JSON_stringify v = Text v"

text \<open>Truthiness of what \<open>getItem\<close> returns: \<open>null\<close> and the empty string are falsy.\<close>

fun truthy_raw :: "stored option \<Rightarrow> bool" where
  "truthy_raw None = False"
| "truthy_raw (Some (Garbage s)) = (s \<noteq> [])"
| "truthy_raw (Some (Text v)) = True"

section \<open>Module state\<close>

text \<open>
  The module-level variables (\<open>apiKey\<close>, \<open>memoryCache\<close>) together with the parts of the
  browser the module touches: the clock read by \<open>Date.now()\<close>, \<open>localStorage\<close> in key
  order, whether \<open>setItem\<close> currently fails with a quota error, the callbacks handed to
  \<open>setTimeout\<close> that have not run yet, and three counters observing the calls of
  \<open>localStorage.getItem\<close>, \<open>fetch\<close> and \<open>console.warn\<close>.
\<close>

record state =
  now :: int
  apiKey :: string
  memoryCache :: "string \<rightharpoonup> json"
  localStorage :: "(string \<times> stored) list"
  quotaExceeded :: bool
  timers :: "(string \<times> jsval \<times> jsval) list"
  getItemCalls :: nat
  fetchCalls :: nat
  warnings :: nat

definition STORAGE_PREFIX :: string where
  "STORAGE_PREFIX = ''filmzimmer:tmdb:''"

definition getItem :: "string \<Rightarrow> state \<Rightarrow> stored option \<times> state" where
  "getItem k s = (map_of (localStorage s) k, s\<lparr>getItemCalls := getItemCalls s + 1\<rparr>)"

definition setItem :: "string \<Rightarrow> stored \<Rightarrow> state \<Rightarrow> js_error + state" where
  "setItem k v s =
     (if quotaExceeded s then Inl QuotaExceededError
      else Inr (s\<lparr>localStorage := AList.update k v (localStorage s)\<rparr>))"

definition removeItem :: "string \<Rightarrow> state \<Rightarrow> state" where
  "removeItem k s = s\<lparr>localStorage := AList.delete k (localStorage s)\<rparr>"

definition console_warn :: "state \<Rightarrow> state" where
  "console_warn s = s\<lparr>warnings := warnings s + 1\<rparr>"

text \<open>The passage of time: the clock moves on by \<open>d\<close> milliseconds.\<close>

definition advance :: "int \<Rightarrow> state \<Rightarrow> state" where
  "advance d s = s\<lparr>now := now s + d\<rparr>"

section \<open>Cache utilities\<close>

text \<open>
  \<^verbatim>\<open>
  const isCacheValid = (entry) => {
      if (!entry || !entry.timestamp || !entry.ttl) return false;
      return Date.now() - entry.timestamp < entry.ttl;
  };
  \<close>
\<close>

definition isCacheValid :: "int \<Rightarrow> jsval \<Rightarrow> bool" where
  "isCacheValid t entry =
     (case entry of
        None \<Rightarrow> False
      | Some e \<Rightarrow>
          if \<not> truthy (Some e) then False
          else if \<not> truthy (field e ''timestamp'') then False
          else if \<not> truthy (field e ''ttl'') then False
          else js_less (js_minus (Some t) (toNumber (field e ''timestamp'')))
                 (toNumber (field e ''ttl'')))"

text \<open>
  The object literal \<open>{ data, timestamp, ttl }\<close>.  A property whose value is
  \<open>undefined\<close> is left out: reading it gives \<open>undefined\<close> either way, and
  \<open>JSON.stringify\<close> drops it.
\<close>

definition opt_field :: "string \<Rightarrow> jsval \<Rightarrow> (string \<times> json) list" where
  "opt_field name v = (case v of None \<Rightarrow> [] | Some x \<Rightarrow> [(name, x)])"

definition mk_entry :: "jsval \<Rightarrow> int \<Rightarrow> jsval \<Rightarrow> json" where
  "mk_entry data t ttl =
     JObj (opt_field ''data'' data @ [(''timestamp'', JNum t)] @ opt_field ''ttl'' ttl)"

text \<open>
  \<^verbatim>\<open>
  const getFromMemoryCache = (key) => {
      const entry = memoryCache.get(key);
      if (entry && isCacheValid(entry)) {
          return entry.data;
      }
      if (entry) {
          memoryCache.delete(key);
      }
      return null;
  };
  \<close>
\<close>

definition getFromMemoryCache :: "string \<Rightarrow> state \<Rightarrow> jsval \<times> state" where
  "getFromMemoryCache key s =
     (case memoryCache s key of
        None \<Rightarrow> (null, s)
      | Some entry \<Rightarrow>
          if truthy (Some entry) \<and> isCacheValid (now s) (Some entry)
          then (field entry ''data'', s)
          else if truthy (Some entry)
          then (null, s\<lparr>memoryCache := (memoryCache s)(key := None)\<rparr>)
          else (null, s))"

text \<open>
  \<^verbatim>\<open>
  const setInMemoryCache = (key, data, ttl) => {
      memoryCache.set(key, { data, timestamp: Date.now(), ttl });
  };
  \<close>
\<close>

definition setInMemoryCache :: "string \<Rightarrow> jsval \<Rightarrow> jsval \<Rightarrow> state \<Rightarrow> state" where
  "setInMemoryCache key data ttl s =
     s\<lparr>memoryCache := (memoryCache s)(key \<mapsto> mk_entry data (now s) ttl)\<rparr>"

text \<open>
  \<^verbatim>\<open>
  const getFromLocalStorage = (key) => {
      try {
          const raw = localStorage.getItem(STORAGE_PREFIX + key);
          if (!raw) return null;
          const entry = JSON.parse(raw);
          if (isCacheValid(entry)) {
              return entry.data;
          }
          localStorage.removeItem(STORAGE_PREFIX + key);
          return null;
      } catch (error) {
          console.warn(...);
          return null;
      }
  };
  \<close>
\<close>

definition getFromLocalStorage :: "string \<Rightarrow> state \<Rightarrow> jsval \<times> state" where
  "getFromLocalStorage key s =
     (case getItem (STORAGE_PREFIX @ key) s of
        (raw, s1) \<Rightarrow>
          if \<not> truthy_raw raw then (null, s1)
          else (case raw of
                  None \<Rightarrow> (null, s1)
                | Some r \<Rightarrow>
                    (case JSON_parse r of
                       Inl err \<Rightarrow> (null, console_warn s1)
                     | Inr entry \<Rightarrow>
                         if isCacheValid (now s1) (Some entry)
                         then (field entry ''data'', s1)
                         else (null, removeItem (STORAGE_PREFIX @ key) s1))))"

text \<open>
  \<^verbatim>\<open>
  const setInLocalStorage = (key, data, ttl) => {
      setTimeout(() => {
          try {
              const entry = { data, timestamp: Date.now(), ttl };
              localStorage.setItem(STORAGE_PREFIX + key, JSON.stringify(entry));
          } catch (error) {
              console.warn(...);
          }
      }, 0);
  };
  \<close>
  The call only queues the callback; \<open>runTimer\<close> is the callback's body, run by the
  event loop at the clock reading of that later moment.
\<close>

definition setInLocalStorage :: "string \<Rightarrow> jsval \<Rightarrow> jsval \<Rightarrow> state \<Rightarrow> state" where
  "setInLocalStorage key data ttl s = s\<lparr>timers := timers s @ [(key, data, ttl)]\<rparr>"

definition runTimer :: "string \<times> jsval \<times> jsval \<Rightarrow> state \<Rightarrow> state" where
  "runTimer cb s =
     (case cb of
        (key, data, ttl) \<Rightarrow>
          (case setItem (STORAGE_PREFIX @ key) (JSON_stringify (mk_entry data (now s) ttl)) s of
             Inl err \<Rightarrow> console_warn s
           | Inr s1 \<Rightarrow> s1))"

definition runTimers :: "state \<Rightarrow> state" where
  "runTimers s = fold runTimer (timers s) (s\<lparr>timers := []\<rparr>)"

text \<open>
  \<^verbatim>\<open>
  const getFromCache = (key) => {
      const memoryData = getFromMemoryCache(key);
      if (memoryData !== null) {
          return memoryData;
      }
      const storageData = getFromLocalStorage(key);
      if (storageData !== null) {
          const raw = localStorage.getItem(STORAGE_PREFIX + key);
          if (raw) {
              const entry = JSON.parse(raw);
              setInMemoryCache(key, storageData, entry.ttl);
          }
          return storageData;
      }
      return null;
  };
  \<close>
  The second \<open>JSON.parse\<close> and the read of \<open>entry.ttl\<close> are outside any \<open>try\<close>: an
  exception there leaves the function, so the result is a sum.
\<close>

definition getFromCache :: "string \<Rightarrow> state \<Rightarrow> (js_error + jsval) \<times> state" where
  "getFromCache key s =
     (case getFromMemoryCache key s of
        (memoryData, s1) \<Rightarrow>
          if memoryData \<noteq> null then (Inr memoryData, s1)
          else (case getFromLocalStorage key s1 of
                  (storageData, s2) \<Rightarrow>
                    if storageData \<noteq> null then
                      (case getItem (STORAGE_PREFIX @ key) s2 of
                         (raw, s3) \<Rightarrow>
                           if truthy_raw raw then
                             (case raw of
                                None \<Rightarrow> (Inr storageData, s3)
                              | Some r \<Rightarrow>
                                  (case JSON_parse r of
                                     Inl err \<Rightarrow> (Inl err, s3)
                                   | Inr entry \<Rightarrow>
                                       (case get_prop (Some entry) ''ttl'' of
                                          Inl err \<Rightarrow> (Inl err, s3)
                                        | Inr ttl \<Rightarrow>
                                            (Inr storageData,
                                             setInMemoryCache key storageData ttl s3))))
                           else (Inr storageData, s3))
                    else (Inr null, s2)))"

text \<open>
  \<^verbatim>\<open>
  const setInCache = (key, data, ttl) => {
      setInMemoryCache(key, data, ttl);
      setInLocalStorage(key, data, ttl);
  };
  \<close>
\<close>

definition setInCache :: "string \<Rightarrow> jsval \<Rightarrow> jsval \<Rightarrow> state \<Rightarrow> state" where
  "setInCache key data ttl s = setInLocalStorage key data ttl (setInMemoryCache key data ttl s)"

text \<open>
  \<^verbatim>\<open>
  const clearAllCache = (memoryOnly = false) => {
      memoryCache.clear();
      if (!memoryOnly) {
          const keysToRemove = [];
          for (let i = 0; i < localStorage.length; i++) {
              const key = localStorage.key(i);
              if (key && key.startsWith(STORAGE_PREFIX)) {
                  keysToRemove.push(key);
              }
          }
          keysToRemove.forEach((key) => localStorage.removeItem(key));
      }
  };
  \<close>
\<close>

definition startsWith :: "string \<Rightarrow> string \<Rightarrow> bool" where
  "startsWith s p = (take (length p) s = p)"

function collectKeys :: "(string \<times> stored) list \<Rightarrow> nat \<Rightarrow> string list \<Rightarrow> string list" where
  "collectKeys store i keysToRemove =
     (if i < length store then
        (let key = fst (store ! i)
         in collectKeys store (Suc i)
              (if key \<noteq> [] \<and> startsWith key STORAGE_PREFIX then keysToRemove @ [key]
               else keysToRemove))
      else keysToRemove)"
  by pat_completeness auto
termination
  by (relation "measure (\<lambda>(store, i, keysToRemove). length store - i)") auto

declare collectKeys.simps [simp del]

definition clearAllCache :: "bool \<Rightarrow> state \<Rightarrow> state" where
  "clearAllCache memoryOnly s =
     (let s1 = s\<lparr>memoryCache := Map.empty\<rparr>
      in if \<not> memoryOnly then
           fold removeItem (collectKeys (localStorage s1) 0 []) s1
         else s1)"

section \<open>HTTP utilities\<close>

text \<open>
  A URL is kept as the \<open>URL\<close> object holds it: the address before the query, and the
  search parameters in order, where \<open>searchParams.set\<close> replaces the value of a name
  already present.  Percent-encoding by \<open>url.toString()\<close> is not modelled.
\<close>

record url =
  address :: string
  searchParams :: "(string \<times> string) list"

definition BASE_URL :: string where
  "BASE_URL = ''https://api.themoviedb.org/3''"

definition DEFAULT_LANGUAGE :: string where
  "DEFAULT_LANGUAGE = ''en-US''"

text \<open>Reading a property of the \<open>params\<close> object literal.\<close>

definition param :: "(string \<times> jsval) list \<Rightarrow> string \<Rightarrow> jsval" where
  "param params name = (case map_of params name of None \<Rightarrow> None | Some v \<Rightarrow> v)"

text \<open>
  \<^verbatim>\<open>
  const buildUrl = (endpoint, params = {}) => {
      const url = new URL(`${CONFIG.BASE_URL}${endpoint}`);
      url.searchParams.set('api_key', apiKey);
      if (!params.language) {
          url.searchParams.set('language', CONFIG.DEFAULT_LANGUAGE);
      }
      Object.entries(params).forEach(([key, value]) => {
          if (value !== undefined && value !== null) {
              url.searchParams.set(key, String(value));
          }
      });
      return url.toString();
  };
  \<close>
\<close>

definition setParam ::
  "string \<times> jsval \<Rightarrow> (string \<times> string) list \<Rightarrow> (string \<times> string) list" where
  "setParam kv sp =
     (case kv of
        (key, val) \<Rightarrow>
          (case val of
             None \<Rightarrow> sp
           | Some v \<Rightarrow> if v \<noteq> JNull then AList.update key (toString v) sp else sp))"

definition buildUrl :: "string \<Rightarrow> (string \<times> jsval) list \<Rightarrow> state \<Rightarrow> url" where
  "buildUrl endpoint params s =
     (let sp0 = AList.update ''api_key'' (apiKey s) [];
          sp1 = (if \<not> truthy (param params ''language'')
                 then AList.update ''language'' DEFAULT_LANGUAGE sp0 else sp0)
      in \<lparr>address = BASE_URL @ endpoint, searchParams = fold setParam params sp1\<rparr>)"

text \<open>
  What \<open>fetch\<close> settles to: a rejection (the transport failed) or a response with its
  status and body; \<open>response.ok\<close> is true exactly for the statuses 200 to 299, and
  \<open>response.json()\<close> decodes the body.
\<close>

record response =
  status :: int
  body :: stored

datatype fetch_outcome = Rejected js_error | Resolved response

definition ok :: "response \<Rightarrow> bool" where
  "ok r = (200 \<le> status r \<and> status r \<le> 299)"

text \<open>
  \<^verbatim>\<open>
  const fetchFromApi = async (url) => {
      const response = await fetch(url);
      if (!response.ok) {
          const errorBody = await response.json().catch(() => ({}));
          const message = errorBody.status_message || `HTTP ${response.status}`;
          throw new Error(`[TMDB API Error] ${message}`);
      }
      return response.json();
  };
  \<close>
  The network is a parameter: what \<open>fetch\<close> settles to for each URL.
\<close>

definition fetchFromApi ::
  "(url \<Rightarrow> fetch_outcome) \<Rightarrow> url \<Rightarrow> state \<Rightarrow> (js_error + json) \<times> state" where
  "fetchFromApi net u s =
     (let s1 = s\<lparr>fetchCalls := fetchCalls s + 1\<rparr>
      in case net u of
           Rejected err \<Rightarrow> (Inl err, s1)
         | Resolved r \<Rightarrow>
             if \<not> ok r then
               (let errorBody = (case JSON_parse (body r) of Inl err \<Rightarrow> JObj [] | Inr v \<Rightarrow> v)
                in case get_prop (Some errorBody) ''status_message'' of
                     Inl err \<Rightarrow> (Inl err, s1)
                   | Inr m \<Rightarrow>
                       (let message = (if truthy m then js_String m
                                       else ''HTTP '' @ decimal (status r))
                        in (Inl (Error (''[TMDB API Error] '' @ message)), s1)))
             else (case JSON_parse (body r) of
                     Inl err \<Rightarrow> (Inl err, s1)
                   | Inr v \<Rightarrow> (Inr v, s1)))"

text \<open>
  \<^verbatim>\<open>
  const fetchWithCache = async (cacheKey, endpoint, params = {}, ttl) => {
      const cachedData = getFromCache(cacheKey);
      if (cachedData !== null) {
          return cachedData;
      }
      const url = buildUrl(endpoint, params);
      const data = await fetchFromApi(url);
      setInCache(cacheKey, data, ttl);
      return data;
  };
  \<close>
  The function is run to completion: what the event loop does while the request is in
  flight (\<open>advance\<close>, \<open>runTimers\<close>) happens before or after the call.
\<close>

definition fetchWithCache ::
  "(url \<Rightarrow> fetch_outcome) \<Rightarrow> string \<Rightarrow> string \<Rightarrow> (string \<times> jsval) list \<Rightarrow> jsval \<Rightarrow> state
     \<Rightarrow> (js_error + jsval) \<times> state" where
  "fetchWithCache net cacheKey endpoint params ttl s =
     (case getFromCache cacheKey s of
        (Inl err, s1) \<Rightarrow> (Inl err, s1)
      | (Inr cachedData, s1) \<Rightarrow>
          if cachedData \<noteq> null then (Inr cachedData, s1)
          else (case fetchFromApi net (buildUrl endpoint params s1) s1 of
                  (Inl err, s2) \<Rightarrow> (Inl err, s2)
                | (Inr data, s2) \<Rightarrow> (Inr (Some data), setInCache cacheKey (Some data) ttl s2)))"

section \<open>Auxiliary notions for the proofs\<close>

text \<open>
  What a tier serves for an entry at clock reading \<open>t\<close>: the entry's \<open>data\<close> while the
  entry is valid, and \<open>null\<close> otherwise.  \<open>decoded\<close> is the entry a stored string
  decodes to, if any.
\<close>

definition served :: "int \<Rightarrow> jsval \<Rightarrow> jsval" where
  "served t entry =
     (case entry of
        None \<Rightarrow> null
      | Some e \<Rightarrow> if isCacheValid t (Some e) then field e ''data'' else null)"

definition decoded :: "stored option \<Rightarrow> jsval" where
  "decoded raw = (case raw of None \<Rightarrow> None | Some (Text e) \<Rightarrow> Some e | Some (Garbage g) \<Rightarrow> None)"

text \<open>
  A key component is \<open>plain\<close> when it is skipped, or renders to a non-empty string
  without the delimiter: numbers are, and so are non-empty strings without a colon.
\<close>

definition plain :: "jsval \<Rightarrow> bool" where
  "plain p = (if truthy p then render p \<noteq> [] \<and> CHR '':'' \<notin> set (render p) else True)"

text \<open>
  A state after a page reload, at clock reading 3000: the memory tier is empty, the
  persistent tier holds two entries written at 1000 with a lifetime of 5000 ms, the
  payload \<open>7\<close> for the key \<open>a\<close> and the payload \<open>null\<close> for the key \<open>n\<close>, next to
  the favourites list of the journal page.
\<close>

definition reloaded :: state where
  "reloaded =
     \<lparr>now = 3000, apiKey = ''k'', memoryCache = Map.empty,
      localStorage =
        [(''filmzimmer:tmdb:a'', Text (mk_entry (Some (JNum 7)) 1000 (Some (JNum 5000)))),
         (''filmzimmer:tmdb:n'', Text (mk_entry null 1000 (Some (JNum 5000)))),
         (''filmzimmer:favourites'', Text (JArr [JNum 550]))],
      quotaExceeded = False, timers = [], getItemCalls = 0, fetchCalls = 0, warnings = 0\<rparr>"

text \<open>
  The same moment with a store that is full and holds, under the key \<open>b\<close>, a string
  that is not JSON.
\<close>

definition damaged :: state where
  "damaged =
     \<lparr>now = 3000, apiKey = ''k'', memoryCache = Map.empty,
      localStorage = [(''filmzimmer:tmdb:b'', Garbage ''{broken'')],
      quotaExceeded = True, timers = [], getItemCalls = 0, fetchCalls = 0, warnings = 0\<rparr>"

section \<open>Entries and validity\<close>

lemma isCacheValid_not_null: "isCacheValid t (Some e) \<Longrightarrow> e \<noteq> JNull"
  by (auto simp: isCacheValid_def)

lemma get_prop_Some: "e \<noteq> JNull \<Longrightarrow> get_prop (Some e) name = Inr (field e name)"
  by (cases e) auto

lemma get_prop_valid:
  "isCacheValid t (Some e) \<Longrightarrow> get_prop (Some e) name = Inr (field e name)"
  by (simp add: isCacheValid_not_null get_prop_Some)

lemma isCacheValid_truthy: "isCacheValid t (Some e) \<Longrightarrow> truthy (Some e)"
  by (auto simp: isCacheValid_def split: if_splits)

lemma field_mk_entry [simp]:
  "field (mk_entry d t ttl) ''data'' = d"
  "field (mk_entry d t ttl) ''timestamp'' = Some (JNum t)"
  "field (mk_entry d t ttl) ''ttl'' = ttl"
  by (auto simp: mk_entry_def opt_field_def split: option.splits)

lemma truthy_mk_entry [simp]: "truthy (Some (mk_entry d t ttl))"
  by (simp add: mk_entry_def)

lemma isCacheValid_mk_entry:
  "isCacheValid t (Some (mk_entry d t0 (Some (JNum ttl)))) =
     (t0 \<noteq> 0 \<and> ttl \<noteq> 0 \<and> t - t0 < ttl)"
  by (auto simp: isCacheValid_def)

section \<open>What a lookup returns and changes\<close>

lemmas cache_defs = getFromCache_def getFromMemoryCache_def getFromLocalStorage_def getItem_def
  removeItem_def console_warn_def setInMemoryCache_def

lemma getFromMemoryCache_fst:
  "fst (getFromMemoryCache key s) = served (now s) (memoryCache s key)"
  by (auto simp: getFromMemoryCache_def served_def isCacheValid_truthy split: option.splits)

lemma getFromLocalStorage_fst:
  "fst (getFromLocalStorage key s) =
     served (now s) (decoded (map_of (localStorage s) (STORAGE_PREFIX @ key)))"
  by (auto simp: getFromLocalStorage_def getItem_def served_def decoded_def
      split: option.splits stored.splits)

lemma getFromCache_fst:
  "fst (getFromCache key s) =
     Inr (if served (now s) (memoryCache s key) \<noteq> null then served (now s) (memoryCache s key)
          else served (now s) (decoded (map_of (localStorage s) (STORAGE_PREFIX @ key))))"
  by (auto simp: cache_defs served_def decoded_def get_prop_valid isCacheValid_truthy
      split: option.splits stored.splits sum.splits prod.splits)

lemma getFromCache_now: "now (snd (getFromCache key s)) = now s"
  by (auto simp: cache_defs get_prop_valid split: option.splits stored.splits sum.splits prod.splits)

lemma getFromCache_memory:
  "memoryCache (snd (getFromCache key s)) =
     (if served (now s) (memoryCache s key) \<noteq> null then memoryCache s
      else if served (now s) (decoded (map_of (localStorage s) (STORAGE_PREFIX @ key))) \<noteq> null
      then (memoryCache s)(key \<mapsto> mk_entry
              (served (now s) (decoded (map_of (localStorage s) (STORAGE_PREFIX @ key)))) (now s)
              (case decoded (map_of (localStorage s) (STORAGE_PREFIX @ key)) of
                 None \<Rightarrow> None | Some e \<Rightarrow> field e ''ttl''))
      else if isCacheValid (now s) (memoryCache s key) then memoryCache s
      else if truthy (memoryCache s key) then (memoryCache s)(key := None)
      else memoryCache s)"
  by (auto simp: cache_defs served_def decoded_def get_prop_valid isCacheValid_truthy
      split: option.splits stored.splits sum.splits prod.splits)

lemma getFromCache_storage:
  "localStorage (snd (getFromCache key s)) =
     (if served (now s) (memoryCache s key) \<noteq> null then localStorage s
      else (case map_of (localStorage s) (STORAGE_PREFIX @ key) of
              Some (Text e) \<Rightarrow>
                if isCacheValid (now s) (Some e) then localStorage s
                else AList.delete (STORAGE_PREFIX @ key) (localStorage s)
            | _ \<Rightarrow> localStorage s))"
  by (auto simp: cache_defs served_def decoded_def get_prop_valid isCacheValid_truthy
      split: option.splits stored.splits sum.splits prod.splits)

lemma getFromCache_calls:
  "getItemCalls (snd (getFromCache key s)) =
     getItemCalls s +
       (if fst (getFromMemoryCache key s) \<noteq> null then 0
        else if fst (getFromLocalStorage key (snd (getFromMemoryCache key s))) \<noteq> null then 2
        else 1)"
  by (auto simp: cache_defs get_prop_valid isCacheValid_truthy
      split: option.splits stored.splits sum.splits prod.splits)

lemma getFromCache_other:
  "timers (snd (getFromCache key s)) = timers s"
  "fetchCalls (snd (getFromCache key s)) = fetchCalls s"
  "quotaExceeded (snd (getFromCache key s)) = quotaExceeded s"
  "apiKey (snd (getFromCache key s)) = apiKey s"
  by (auto simp: cache_defs get_prop_valid split: option.splits stored.splits sum.splits prod.splits)

lemma miss_again:
  assumes "fst (getFromCache key s) = Inr null"
  shows "fst (getFromCache key (snd (getFromCache key s))) = Inr null"
  using assms
  by (auto simp: getFromCache_fst getFromCache_now getFromCache_memory getFromCache_storage
      served_def decoded_def AList.delete_conv
      split: option.splits stored.splits if_splits)

section \<open>Writes, timers and the clock\<close>

lemma runTimer_rest:
  "now (runTimer cb s) = now s"
  "memoryCache (runTimer cb s) = memoryCache s"
  "quotaExceeded (runTimer cb s) = quotaExceeded s"
  "timers (runTimer cb s) = timers s"
  "getItemCalls (runTimer cb s) = getItemCalls s"
  "fetchCalls (runTimer cb s) = fetchCalls s"
  by (auto simp: runTimer_def setItem_def console_warn_def split: prod.splits)

lemma fold_runTimer_rest:
  "now (fold runTimer cbs s) = now s"
  "memoryCache (fold runTimer cbs s) = memoryCache s"
  "quotaExceeded (fold runTimer cbs s) = quotaExceeded s"
  "timers (fold runTimer cbs s) = timers s"
  "getItemCalls (fold runTimer cbs s) = getItemCalls s"
  "fetchCalls (fold runTimer cbs s) = fetchCalls s"
  by (induction cbs arbitrary: s) (simp_all add: runTimer_rest)

lemma runTimer_storage:
  "localStorage (runTimer (key, data, ttl) s) =
     (if quotaExceeded s then localStorage s
      else AList.update (STORAGE_PREFIX @ key) (Text (mk_entry data (now s) ttl)) (localStorage s))"
  by (simp add: runTimer_def setItem_def console_warn_def JSON_stringify_def)

lemma fold_runTimer_full:
  "quotaExceeded s \<Longrightarrow> localStorage (fold runTimer cbs s) = localStorage s"
  by (induction cbs arbitrary: s) (auto simp: runTimer_rest runTimer_storage)

lemma runTimers_rest:
  "now (runTimers s) = now s"
  "memoryCache (runTimers s) = memoryCache s"
  "quotaExceeded (runTimers s) = quotaExceeded s"
  "timers (runTimers s) = []"
  "getItemCalls (runTimers s) = getItemCalls s"
  "fetchCalls (runTimers s) = fetchCalls s"
  by (simp_all add: runTimers_def fold_runTimer_rest)

lemma runTimers_full: "quotaExceeded s \<Longrightarrow> localStorage (runTimers s) = localStorage s"
  by (simp add: runTimers_def fold_runTimer_full)


lemma setInCache_fields:
  "now (setInCache key data ttl s) = now s"
  "memoryCache (setInCache key data ttl s) = (memoryCache s)(key \<mapsto> mk_entry data (now s) ttl)"
  "localStorage (setInCache key data ttl s) = localStorage s"
  "timers (setInCache key data ttl s) = timers s @ [(key, data, ttl)]"
  "quotaExceeded (setInCache key data ttl s) = quotaExceeded s"
  "getItemCalls (setInCache key data ttl s) = getItemCalls s"
  "fetchCalls (setInCache key data ttl s) = fetchCalls s"
  by (simp_all add: setInCache_def setInLocalStorage_def setInMemoryCache_def)

lemma advance_fields:
  "now (advance d s) = now s + d"
  "memoryCache (advance d s) = memoryCache s"
  "localStorage (advance d s) = localStorage s"
  "timers (advance d s) = timers s"
  "quotaExceeded (advance d s) = quotaExceeded s"
  "getItemCalls (advance d s) = getItemCalls s"
  "fetchCalls (advance d s) = fetchCalls s"
  by (simp_all add: advance_def)

lemma served_null [simp]: "served t None = null"
  by (simp add: served_def)

lemma served_mk_entry:
  "served t (Some (mk_entry d t0 (Some (JNum ttl)))) =
     (if t0 \<noteq> 0 \<and> ttl \<noteq> 0 \<and> t - t0 < ttl then d else null)"
  by (simp add: served_def isCacheValid_mk_entry)

section \<open>Clearing the cache\<close>

lemma collectKeys_eq:
  "collectKeys store i acc =
     acc @ filter (\<lambda>k. k \<noteq> [] \<and> startsWith k STORAGE_PREFIX) (map fst (drop i store))"
proof (induction store i acc rule: collectKeys.induct)
  case (1 store i keysToRemove)
  show ?case
  proof (cases "i < length store")
    case True
    then have d: "drop i store = store ! i # drop (Suc i) store"
      by (simp add: Cons_nth_drop_Suc)
    from True 1 show ?thesis
      by (subst collectKeys.simps) (simp add: d Let_def)
  next
    case False
    then show ?thesis
      by (subst collectKeys.simps) simp
  qed
qed

lemma startsWith_prefix_nonempty [simp]: "\<not> startsWith [] STORAGE_PREFIX"
  by (simp add: startsWith_def STORAGE_PREFIX_def)

lemma map_of_filter_key:
  "map_of (filter (\<lambda>(k, v). P k) xs) k = (if P k then map_of xs k else None)"
  by (induction xs) auto

lemma fold_removeItem_storage:
  "localStorage (fold removeItem ks s) = filter (\<lambda>(k, v). k \<notin> set ks) (localStorage s)"
proof (induction ks arbitrary: s)
  case Nil
  then show ?case by simp
next
  case (Cons k ks)
  have "filter (\<lambda>(k', v). k' \<notin> set ks) (AList.delete k (localStorage s)) =
        filter (\<lambda>(k', v). k' \<notin> set (k # ks)) (localStorage s)"
    by (auto simp: AList.delete_eq intro: filter_cong)
  with Cons show ?case by (simp add: removeItem_def)
qed

lemma fold_removeItem_rest:
  "memoryCache (fold removeItem ks s) = memoryCache s"
  "now (fold removeItem ks s) = now s"
  "timers (fold removeItem ks s) = timers s"
  "quotaExceeded (fold removeItem ks s) = quotaExceeded s"
  "getItemCalls (fold removeItem ks s) = getItemCalls s"
  "fetchCalls (fold removeItem ks s) = fetchCalls s"
  by (induction ks arbitrary: s) (simp_all add: removeItem_def)

lemma clearAllCache_memory: "memoryCache (clearAllCache memoryOnly s) = Map.empty"
  by (simp add: clearAllCache_def Let_def fold_removeItem_rest)

lemma clearAllCache_storage:
  "localStorage (clearAllCache memoryOnly s) =
     (if memoryOnly then localStorage s
      else filter (\<lambda>(k, v). \<not> startsWith k STORAGE_PREFIX) (localStorage s))"
proof (cases memoryOnly)
  case True
  then show ?thesis by (simp add: clearAllCache_def)
next
  case False
  have "filter (\<lambda>(k, v). k \<notin> set (collectKeys (localStorage s) 0 [])) (localStorage s) =
        filter (\<lambda>(k, v). \<not> startsWith k STORAGE_PREFIX) (localStorage s)"
    by (rule filter_cong) (auto simp: collectKeys_eq image_iff)
  with False show ?thesis
    by (simp add: clearAllCache_def Let_def fold_removeItem_storage)
qed

section \<open>The network\<close>

lemma fetchFromApi_snd: "snd (fetchFromApi net u s) = s\<lparr>fetchCalls := fetchCalls s + 1\<rparr>"
  by (auto simp: fetchFromApi_def Let_def split: fetch_outcome.splits sum.splits)

lemma fetchWithCache_miss:
  assumes "fst (getFromCache key s) = Inr null"
  shows "fetchWithCache net key endpoint params ttl s =
     (case fst (fetchFromApi net (buildUrl endpoint params (snd (getFromCache key s)))
                  (snd (getFromCache key s))) of
        Inl err \<Rightarrow> (Inl err, (snd (getFromCache key s))\<lparr>fetchCalls := fetchCalls s + 1\<rparr>)
      | Inr data \<Rightarrow>
          (Inr (Some data),
           setInCache key (Some data) ttl
             ((snd (getFromCache key s))\<lparr>fetchCalls := fetchCalls s + 1\<rparr>)))"
proof -
  obtain s1 where g: "getFromCache key s = (Inr null, s1)"
    using assms by (cases "getFromCache key s") simp
  obtain r s2 where f: "fetchFromApi net (buildUrl endpoint params s1) s1 = (r, s2)"
    by (cases "fetchFromApi net (buildUrl endpoint params s1) s1") simp
  have s2: "s2 = s1\<lparr>fetchCalls := fetchCalls s1 + 1\<rparr>"
    using fetchFromApi_snd [of net "buildUrl endpoint params s1" s1] f by simp
  have fc: "fetchCalls s1 = fetchCalls s"
    using getFromCache_other(2) [of key s] g by simp
  show ?thesis
    using g f s2 fc by (simp add: fetchWithCache_def split: sum.splits)
qed


lemma getFromCache_fetchCalls_irrelevant:
  "fst (getFromCache key (s\<lparr>fetchCalls := n\<rparr>)) = fst (getFromCache key s)"
  by (simp add: getFromCache_fst)

lemma miss_memory:
  assumes "fst (getFromCache key s) = Inr null"
  shows "memoryCache (snd (getFromCache key s)) = memoryCache s \<or>
         memoryCache (snd (getFromCache key s)) = (memoryCache s)(key := None)"
  using assms by (auto simp: getFromCache_fst getFromCache_memory split: if_splits)

lemma miss_storage:
  assumes "fst (getFromCache key s) = Inr null"
  shows "localStorage (snd (getFromCache key s)) = localStorage s \<or>
         localStorage (snd (getFromCache key s)) =
           AList.delete (STORAGE_PREFIX @ key) (localStorage s)"
  using assms
  by (auto simp: getFromCache_fst getFromCache_storage split: if_splits option.splits stored.splits)

section \<open>Absent keys and the deferred write\<close>

lemma removeItem_fields:
  "now (removeItem k s) = now s"
  "memoryCache (removeItem k s) = memoryCache s"
  "map_of (localStorage (removeItem k s)) k = None"
  by (simp_all add: removeItem_def delete_conv)

lemma miss_leaves_nothing_to_serve:
  assumes "fst (getFromCache key s) = Inr null"
  shows "fst (getFromLocalStorage key (snd (getFromCache key s))) = null"
  using assms
  by (auto simp: getFromLocalStorage_fst getFromCache_now getFromCache_fst getFromCache_storage
      served_def decoded_def delete_conv
      split: if_splits option.splits stored.splits)


lemma served_null_data [simp]: "served t (Some (mk_entry null t0 ttl)) = null"
  by (simp add: served_def)

section \<open>Joining and rendering key components\<close>

lemma join_Cons: "join sep (x # xs) = x @ (if xs = [] then [] else sep @ join sep xs)"
  by (cases xs) auto

lemma takeWhile_upto:
  "c \<notin> set x \<Longrightarrow> takeWhile (\<lambda>a. a \<noteq> c) x = x"
  "c \<notin> set x \<Longrightarrow> takeWhile (\<lambda>a. a \<noteq> c) (x @ c # r) = x"
  by (induction x) auto

lemma dropWhile_upto:
  "c \<notin> set x \<Longrightarrow> dropWhile (\<lambda>a. a \<noteq> c) x = []"
  "c \<notin> set x \<Longrightarrow> dropWhile (\<lambda>a. a \<noteq> c) (x @ c # r) = c # r"
  by (induction x) auto

lemma takeWhile_join:
  "c \<notin> set x \<Longrightarrow> takeWhile (\<lambda>a. a \<noteq> c) (join [c] (x # xs)) = x"
  by (simp add: join_Cons takeWhile_upto)

lemma dropWhile_join:
  "c \<notin> set x \<Longrightarrow>
     dropWhile (\<lambda>a. a \<noteq> c) (join [c] (x # xs)) = (if xs = [] then [] else c # join [c] xs)"
  by (simp add: join_Cons dropWhile_upto)

lemma join_inj:
  assumes "\<forall>x \<in> set xs. x \<noteq> [] \<and> c \<notin> set x"
    and "\<forall>y \<in> set ys. y \<noteq> [] \<and> c \<notin> set y"
    and "join [c] xs = join [c] ys"
  shows "xs = ys"
  using assms
proof (induction xs arbitrary: ys)
  case Nil
  then show ?case
    by (cases ys) (auto simp: join_Cons)
next
  case (Cons x xs)
  show ?case
  proof (cases ys)
    case Nil
    with Cons.prems show ?thesis
      by (auto simp: join_Cons)
  next
    case (Cons y ys')
    have cx: "c \<notin> set x" and cy: "c \<notin> set y"
      using Cons.prems Cons by auto
    have e: "join [c] (x # xs) = join [c] (y # ys')"
      using Cons.prems(3) Cons by simp
    have xy: "x = y"
      using arg_cong [OF e, of "takeWhile (\<lambda>a. a \<noteq> c)"] cx cy by (simp add: takeWhile_join)
    have r: "(if xs = [] then [] else c # join [c] xs) = (if ys' = [] then [] else c # join [c] ys')"
      using arg_cong [OF e, of "dropWhile (\<lambda>a. a \<noteq> c)"] cx cy by (simp add: dropWhile_join)
    have "xs = ys'"
    proof (cases "xs = []")
      case True
      with r show ?thesis by (auto split: if_splits)
    next
      case False
      with r have n: "ys' \<noteq> []" and j: "join [c] xs = join [c] ys'"
        by (auto split: if_splits)
      show ?thesis
        using Cons.IH [of ys'] Cons.prems Cons j by auto
    qed
    with xy Cons show ?thesis by simp
  qed
qed

lemma digit_char_not_colon: "d < 10 \<Longrightarrow> digit_char d \<noteq> CHR '':''"
  by (auto simp: digit_char_def dest: arg_cong [where f = "of_char :: char \<Rightarrow> nat"])

lemma digit_char_not_minus: "d < 10 \<Longrightarrow> digit_char d \<noteq> CHR ''-''"
  by (auto simp: digit_char_def dest: arg_cong [where f = "of_char :: char \<Rightarrow> nat"])

lemma digit_val_digit_char: "d < 10 \<Longrightarrow> digit_val (digit_char d) = Some d"
  by (simp add: digit_val_def digit_char_def)

lemma string_of_nat_chars: "set (string_of_nat n) \<subseteq> digit_char ` {..<10}"
proof (induction n rule: string_of_nat.induct)
  case (1 n)
  show ?case
  proof (cases "n < 10")
    case True
    then show ?thesis by (subst string_of_nat.simps) simp
  next
    case False
    with 1 show ?thesis by (subst string_of_nat.simps) auto
  qed
qed

lemma string_of_nat_nonempty: "string_of_nat n \<noteq> []"
  by (subst string_of_nat.simps) simp

lemma colon_free_string_of_nat: "CHR '':'' \<notin> set (string_of_nat n)"
proof
  assume "CHR '':'' \<in> set (string_of_nat n)"
  then obtain d where "d < 10" and "CHR '':'' = digit_char d"
    using string_of_nat_chars [of n] by auto
  then show False
    using digit_char_not_colon [of d] by simp
qed

lemma colon_free_decimal: "CHR '':'' \<notin> set (decimal i)"
  by (simp add: decimal_def colon_free_string_of_nat)

lemma decimal_nonempty: "decimal i \<noteq> []"
  by (simp add: decimal_def string_of_nat_nonempty)

lemma digits_val_snoc:
  "digits_val acc (cs @ [c]) =
     (case digits_val acc cs of
        None \<Rightarrow> None
      | Some v \<Rightarrow> (case digit_val c of None \<Rightarrow> None | Some d \<Rightarrow> Some (10 * v + d)))"
  by (induction cs arbitrary: acc) (auto split: option.splits)

lemma digits_val_string_of_nat: "digits_val 0 (string_of_nat n) = Some n"
proof (induction n rule: string_of_nat.induct)
  case (1 n)
  show ?case
  proof (cases "n < 10")
    case True
    then show ?thesis by (subst string_of_nat.simps) (simp add: digit_val_digit_char)
  next
    case False
    with 1 show ?thesis
      by (subst string_of_nat.simps) (simp add: digits_val_snoc digit_val_digit_char)
  qed
qed

lemma string_of_nat_inj:
  assumes "string_of_nat m = string_of_nat n"
  shows "m = n"
proof -
  have "Some m = digits_val 0 (string_of_nat m)"
    by (simp only: digits_val_string_of_nat)
  also have "\<dots> = digits_val 0 (string_of_nat n)"
    by (simp only: assms)
  also have "\<dots> = Some n"
    by (simp only: digits_val_string_of_nat)
  finally show ?thesis by simp
qed

lemma minus_free_string_of_nat: "CHR ''-'' \<notin> set (string_of_nat n)"
proof
  assume "CHR ''-'' \<in> set (string_of_nat n)"
  then obtain d where "d < 10" and "CHR ''-'' = digit_char d"
    using string_of_nat_chars [of n] by auto
  then show False
    using digit_char_not_minus [of d] by simp
qed

lemma decimal_inj:
  assumes "decimal i = decimal j"
  shows "i = j"
proof -
  have neg: "False" if "string_of_nat m = CHR ''-'' # cs" for m cs
    using minus_free_string_of_nat [of m] that by simp
  show ?thesis
  proof (cases "i < 0")
    case True
    show ?thesis
    proof (cases "j < 0")
      case True
      with \<open>i < 0\<close> assms have "nat (- i) = nat (- j)"
        by (simp add: decimal_def string_of_nat_inj)
      with True \<open>i < 0\<close> show ?thesis by simp
    next
      case False
      with \<open>i < 0\<close> assms neg [of "nat j" "string_of_nat (nat (- i))"] show ?thesis
        by (simp add: decimal_def)
    qed
  next
    case False
    show ?thesis
    proof (cases "j < 0")
      case True
      with \<open>\<not> i < 0\<close> assms neg [of "nat i" "string_of_nat (nat (- j))"] show ?thesis
        by (simp add: decimal_def)
    next
      case False
      with \<open>\<not> i < 0\<close> assms have "nat i = nat j"
        by (simp add: decimal_def string_of_nat_inj)
      with False \<open>\<not> i < 0\<close> show ?thesis by simp
    qed
  qed
qed

lemma plain_cases:
  "plain None" "plain null" "plain (Some (JNum n))"
  "CHR '':'' \<notin> set str \<Longrightarrow> plain (Some (JStr str))"
  by (simp_all add: plain_def render_def colon_free_decimal decimal_nonempty)

section \<open>Errors of the API\<close>

lemma fetchFromApi_non_2xx:
  assumes "net u = Resolved r" and "\<not> ok r" and "body r \<noteq> Text JNull"
  shows "fst (fetchFromApi net u s) =
           Inl (Error (''[TMDB API Error] '' @
             (if truthy (field (case JSON_parse (body r) of Inl e \<Rightarrow> JObj [] | Inr v \<Rightarrow> v)
                          ''status_message'')
              then js_String (field (case JSON_parse (body r) of Inl e \<Rightarrow> JObj [] | Inr v \<Rightarrow> v)
                                ''status_message'')
              else ''HTTP '' @ decimal (status r))))"
proof (cases "body r")
  case (Text v)
  with assms have "v \<noteq> JNull" by simp
  with assms Text show ?thesis
    by (simp add: fetchFromApi_def Let_def get_prop_Some)
next
  case (Garbage g)
  with assms show ?thesis
    by (simp add: fetchFromApi_def Let_def)
qed

lemma fetchFromApi_non_2xx_rejects:
  assumes "net u = Resolved r" and "\<not> ok r"
  shows "\<exists>err. fst (fetchFromApi net u s) = Inl err"
  using assms by (auto simp: fetchFromApi_def Let_def split: sum.splits)

section \<open>Freshness\<close>

text \<open>
  Claim C1, as the code has it.  For every key, every \<open>ttl > 0\<close> and every payload that
  is not \<open>null\<close>, or that is \<open>null\<close> while the persistent tier yields nothing for the
  key, and with the clock not reading \<open>0\<close>: \<open>setInCache(key, data, ttl)\<close> followed at
  once by \<open>getFromCache(key)\<close> returns \<open>data\<close>.
\<close>

theorem fresh_entry_is_served:
  assumes "0 < ttl" and "now s \<noteq> 0"
    and "d \<noteq> JNull \<or> fst (getFromLocalStorage key s) = null"
  shows "fst (getFromCache key (setInCache key (Some d) (Some (JNum ttl)) s)) = Inr (Some d)"
proof (cases "d = JNull")
  case True
  with assms(3) have "fst (getFromLocalStorage key s) = null" by simp
  with True show ?thesis
    by (simp add: getFromCache_fst getFromLocalStorage_fst setInCache_fields)
next
  case False
  with assms show ?thesis
    by (simp add: getFromCache_fst setInCache_fields served_mk_entry)
qed

theorem fresh_entry_is_served_witness:
  "(0::int) < 100 \<and> now reloaded \<noteq> 0 \<and> JNum 7 \<noteq> JNull \<and>
   fst (getFromCache ''a'' (setInCache ''a'' (Some (JNum 7)) (Some (JNum 100)) reloaded)) =
     Inr (Some (JNum 7))"
  using fresh_entry_is_served [of 100 reloaded "JNum 7" "''a''"] by (simp add: reloaded_def)

text \<open>
  The claim as written fails for the payload \<open>null\<close> and for a clock reading \<open>0\<close>.
  After the reload, \<open>setInCache('a', null, 100)\<close> and then \<open>getFromCache('a')\<close> returns
  the \<open>7\<close> still held by the persistent tier, not \<open>null\<close>; and with the clock at \<open>0\<close>
  the entry just written for \<open>b\<close> has a falsy timestamp, is dropped as invalid, and the
  lookup returns \<open>null\<close> instead of \<open>7\<close>.
\<close>

theorem fresh_entry_is_served_counterexample:
  "fst (getFromCache ''a'' (setInCache ''a'' null (Some (JNum 100)) reloaded)) =
     Inr (Some (JNum 7)) \<and>
   fst (getFromCache ''b''
          (setInCache ''b'' (Some (JNum 7)) (Some (JNum 100)) (reloaded\<lparr>now := 0\<rparr>))) =
     Inr null"
  by (simp add: getFromCache_fst setInCache_fields served_mk_entry reloaded_def decoded_def
      STORAGE_PREFIX_def)

section \<open>Expiry\<close>




section \<open>Tier promotion\<close>

text \<open>
  Claim C3, as the code has it.  When the memory tier yields nothing for the key and
  the persistent tier holds a valid entry with a payload other than \<open>null\<close>,
  \<open>getFromCache(key)\<close> returns that payload, leaves the persistent store as it is, and
  writes to the memory tier an entry with the same payload and the same \<open>ttl\<close> but
  stamped with the time of the read: the promoted entry is valid at a time \<open>t\<close> exactly
  when \<open>t - now < ttl\<close> (and the clock did not read \<open>0\<close>), that is, for the full \<open>ttl\<close>
  counted from the read, not for what remained of the persistent entry's life.
\<close>

theorem promotion_restamps_entry:
  assumes "fst (getFromMemoryCache key s) = null"
    and "map_of (localStorage s) (STORAGE_PREFIX @ key) = Some (Text entry)"
    and "isCacheValid (now s) (Some entry)"
    and "field entry ''data'' \<noteq> null"
  shows "fst (getFromCache key s) = Inr (field entry ''data'') \<and>
         memoryCache (snd (getFromCache key s)) =
           (memoryCache s)(key \<mapsto> mk_entry (field entry ''data'') (now s) (field entry ''ttl'')) \<and>
         localStorage (snd (getFromCache key s)) = localStorage s \<and>
         isCacheValid t (memoryCache (snd (getFromCache key s)) key) =
           (now s \<noteq> 0 \<and> js_less (Some (t - now s)) (toNumber (field entry ''ttl'')))"
proof -
  have m: "served (now s) (memoryCache s key) = null"
    using assms(1) by (simp add: getFromMemoryCache_fst)
  have l: "served (now s) (decoded (map_of (localStorage s) (STORAGE_PREFIX @ key))) =
             field entry ''data''"
    using assms by (simp add: decoded_def served_def)
  have tt: "truthy (field entry ''ttl'')"
    using assms(3) by (auto simp: isCacheValid_def split: if_splits)
  have mem: "memoryCache (snd (getFromCache key s)) =
           (memoryCache s)(key \<mapsto> mk_entry (field entry ''data'') (now s) (field entry ''ttl''))"
    using assms m l by (simp add: getFromCache_memory decoded_def)
  have v: "isCacheValid t (Some (mk_entry (field entry ''data'') (now s) (field entry ''ttl''))) =
           (now s \<noteq> 0 \<and> js_less (Some (t - now s)) (toNumber (field entry ''ttl'')))"
    using tt by (simp add: isCacheValid_def)
  show ?thesis
    using assms m l mem v by (simp add: getFromCache_fst getFromCache_storage)
qed

theorem promotion_restamps_entry_witness:
  "fst (getFromMemoryCache ''a'' reloaded) = null \<and>
   map_of (localStorage reloaded) (STORAGE_PREFIX @ ''a'') =
     Some (Text (mk_entry (Some (JNum 7)) 1000 (Some (JNum 5000)))) \<and>
   isCacheValid (now reloaded) (Some (mk_entry (Some (JNum 7)) 1000 (Some (JNum 5000)))) \<and>
   fst (getFromCache ''a'' reloaded) = Inr (Some (JNum 7)) \<and>
   memoryCache (snd (getFromCache ''a'' reloaded)) ''a'' =
     Some (mk_entry (Some (JNum 7)) 3000 (Some (JNum 5000))) \<and>
   isCacheValid 7999 (memoryCache (snd (getFromCache ''a'' reloaded)) ''a'') \<and>
   \<not> isCacheValid 8000 (memoryCache (snd (getFromCache ''a'' reloaded)) ''a'')"
  using promotion_restamps_entry
      [of "''a''" reloaded "mk_entry (Some (JNum 7)) 1000 (Some (JNum 5000))" 7999]
    promotion_restamps_entry
      [of "''a''" reloaded "mk_entry (Some (JNum 7)) 1000 (Some (JNum 5000))" 8000]
  by (simp add: getFromMemoryCache_fst isCacheValid_mk_entry reloaded_def STORAGE_PREFIX_def)

text \<open>
  The claim as written fails.  The entry of \<open>a\<close>, written at 1000 with a lifetime of
  5000 ms, is promoted by the read at 3000: at 7000 the persistent tier reports it
  stale while the memory tier still serves the promoted copy.  And the valid entry of
  \<open>n\<close>, whose payload is \<open>null\<close>, is not copied into the memory tier at all.
\<close>

theorem promotion_restamps_entry_counterexample:
  "fst (getFromMemoryCache ''a'' (advance 4000 (snd (getFromCache ''a'' reloaded)))) =
     Some (JNum 7) \<and>
   fst (getFromLocalStorage ''a'' (advance 4000 (snd (getFromCache ''a'' reloaded)))) = null \<and>
   isCacheValid (now reloaded) (decoded (map_of (localStorage reloaded) (STORAGE_PREFIX @ ''n''))) \<and>
   memoryCache (snd (getFromCache ''n'' reloaded)) ''n'' = None"
  by (simp add: getFromMemoryCache_fst getFromLocalStorage_fst advance_fields getFromCache_now
      getFromCache_memory getFromCache_storage served_mk_entry isCacheValid_mk_entry
      reloaded_def decoded_def STORAGE_PREFIX_def)

section \<open>Read cost\<close>

text \<open>
  Claim C4, as the code has it.  \<open>getFromCache(key)\<close> performs no network call, and
  calls \<open>localStorage.getItem\<close> not at all on a memory hit, twice when it promotes an
  entry of the persistent tier, and once otherwise: at most twice.
\<close>

theorem lookup_read_cost:
  "getItemCalls (snd (getFromCache key s)) =
     getItemCalls s +
       (if fst (getFromMemoryCache key s) \<noteq> null then 0
        else if fst (getFromLocalStorage key (snd (getFromMemoryCache key s))) \<noteq> null then 2
        else 1) \<and>
   getItemCalls (snd (getFromCache key s)) \<le> getItemCalls s + 2 \<and>
   fetchCalls (snd (getFromCache key s)) = fetchCalls s"
  by (simp add: getFromCache_calls getFromCache_other)

theorem lookup_read_cost_witness:
  "getItemCalls (snd (getFromCache ''b'' reloaded)) = 1 \<and>
   fetchCalls (snd (getFromCache ''b'' reloaded)) = 0"
  using lookup_read_cost [of "''b''" reloaded]
  by (simp add: getFromMemoryCache_fst getFromLocalStorage_fst getFromMemoryCache_def
      reloaded_def decoded_def STORAGE_PREFIX_def)

text \<open>
  The claim as written fails on the promotion path: the lookup of \<open>a\<close> after the reload
  reads the persistent store twice.
\<close>

theorem lookup_read_cost_counterexample:
  "getItemCalls (snd (getFromCache ''a'' reloaded)) = getItemCalls reloaded + 2"
  by (simp add: getFromCache_calls getFromMemoryCache_fst getFromLocalStorage_fst
      getFromMemoryCache_def served_mk_entry reloaded_def decoded_def STORAGE_PREFIX_def)

section \<open>Failed loads\<close>

text \<open>
  Claim C5.  When the lookup misses and the load rejects with an error,
  \<open>fetchWithCache\<close> rejects with that very error; each tier is as it was before the
  call, but for the lazy eviction of a stale entry of that key by the lookup; no
  deferred write is queued; and a following \<open>getFromCache(key)\<close> still returns \<open>null\<close>.
\<close>

theorem failed_load_not_cached:
  assumes "fst (getFromCache key s) = Inr null"
    and "fst (fetchFromApi net (buildUrl endpoint params (snd (getFromCache key s)))
                (snd (getFromCache key s))) = Inl err"
  shows "fst (fetchWithCache net key endpoint params ttl s) = Inl err \<and>
         (memoryCache (snd (fetchWithCache net key endpoint params ttl s)) = memoryCache s \<or>
          memoryCache (snd (fetchWithCache net key endpoint params ttl s)) =
            (memoryCache s)(key := None)) \<and>
         (localStorage (snd (fetchWithCache net key endpoint params ttl s)) = localStorage s \<or>
          localStorage (snd (fetchWithCache net key endpoint params ttl s)) =
            AList.delete (STORAGE_PREFIX @ key) (localStorage s)) \<and>
         timers (snd (fetchWithCache net key endpoint params ttl s)) = timers s \<and>
         fst (getFromCache key (snd (fetchWithCache net key endpoint params ttl s))) = Inr null"
proof -
  let ?s1 = "snd (getFromCache key s)"
  have r: "fetchWithCache net key endpoint params ttl s =
             (Inl err, ?s1\<lparr>fetchCalls := fetchCalls s + 1\<rparr>)"
    using assms(2) by (simp add: fetchWithCache_miss [OF assms(1)])
  show ?thesis
    using miss_memory [OF assms(1)] miss_storage [OF assms(1)] miss_again [OF assms(1)]
    by (simp add: r getFromCache_fetchCalls_irrelevant getFromCache_other)
qed

theorem failed_load_not_cached_witness:
  "fst (getFromCache ''b'' reloaded) = Inr null \<and>
   fst (fetchFromApi (\<lambda>u. Rejected (NetworkError ''offline''))
          (buildUrl ''/movie/550'' [] (snd (getFromCache ''b'' reloaded)))
          (snd (getFromCache ''b'' reloaded))) = Inl (NetworkError ''offline'') \<and>
   fst (fetchWithCache (\<lambda>u. Rejected (NetworkError ''offline'')) ''b'' ''/movie/550'' []
          (Some (JNum 100)) reloaded) = Inl (NetworkError ''offline'') \<and>
   timers (snd (fetchWithCache (\<lambda>u. Rejected (NetworkError ''offline'')) ''b'' ''/movie/550'' []
          (Some (JNum 100)) reloaded)) = [] \<and>
   fst (getFromCache ''b'' (snd (fetchWithCache (\<lambda>u. Rejected (NetworkError ''offline'')) ''b''
          ''/movie/550'' [] (Some (JNum 100)) reloaded))) = Inr null"
proof -
  have m: "fst (getFromCache ''b'' reloaded) = Inr null"
    by (simp add: getFromCache_fst reloaded_def decoded_def STORAGE_PREFIX_def)
  have f: "fst (fetchFromApi (\<lambda>u. Rejected (NetworkError ''offline''))
          (buildUrl ''/movie/550'' [] (snd (getFromCache ''b'' reloaded)))
          (snd (getFromCache ''b'' reloaded))) = Inl (NetworkError ''offline'')"
    by (simp add: fetchFromApi_def Let_def)
  have t: "timers reloaded = []"
    by (simp add: reloaded_def)
  show ?thesis
    using failed_load_not_cached [OF m f, of "Some (JNum 100)"] m f t by simp
qed

section \<open>Cache-key construction\<close>

text \<open>
  Claim C6, as the code has it.  \<open>createCacheKey\<close> is a function of the ordered
  component list that skips every falsy component (\<open>undefined\<close>, \<open>null\<close>, \<open>false\<close>,
  \<open>0\<close>, the empty string) and joins the renderings of the others with a colon.  For
  lists of plain components, two keys are equal exactly when the kept components
  render alike, in the same order.
\<close>

theorem cache_key_by_renderings:
  "(\<not> truthy p \<longrightarrow> createCacheKey (pre @ p # post) = createCacheKey (pre @ post)) \<and>
   ((\<forall>c \<in> set xs \<union> set ys. plain c) \<longrightarrow>
      (createCacheKey xs = createCacheKey ys) =
        (map render (filter truthy xs) = map render (filter truthy ys)))"
proof -
  have "map render (filter truthy xs) = map render (filter truthy ys)"
    if p: "\<forall>c \<in> set xs \<union> set ys. plain c" and e: "createCacheKey xs = createCacheKey ys"
  proof (rule join_inj [where c = "CHR '':''"])
    show "\<forall>x \<in> set (map render (filter truthy xs)). x \<noteq> [] \<and> CHR '':'' \<notin> set x"
      using p by (auto simp: plain_def)
    show "\<forall>y \<in> set (map render (filter truthy ys)). y \<noteq> [] \<and> CHR '':'' \<notin> set y"
      using p by (auto simp: plain_def)
    show "join '':'' (map render (filter truthy xs)) = join '':'' (map render (filter truthy ys))"
      using e by (simp add: createCacheKey_def)
  qed
  then show ?thesis
    by (auto simp: createCacheKey_def)
qed

theorem cache_key_by_renderings_witness:
  "createCacheKey [Some (JStr ''movie''), Some (JNum 550), None, Some (JStr ''credits'')] =
     ''movie:550:credits'' \<and>
   createCacheKey [Some (JStr ''movie''), Some (JNum 550)] \<noteq>
     createCacheKey [Some (JStr ''movie''), Some (JNum 551)] \<and>
   createCacheKey [Some (JStr ''movie''), Some (JNum 550)] \<noteq>
     createCacheKey [Some (JStr ''movie''), Some (JNum 550), Some (JStr ''videos'')]"
proof -
  have k: "createCacheKey [Some (JStr ''movie''), Some (JNum 550), Some (JStr ''credits'')] =
             ''movie:550:credits''"
    by code_simp
  have s: "createCacheKey ([Some (JStr ''movie''), Some (JNum 550)] @ None # [Some (JStr ''credits'')]) =
           createCacheKey ([Some (JStr ''movie''), Some (JNum 550)] @ [Some (JStr ''credits'')])"
    using cache_key_by_renderings
      [of None "[Some (JStr ''movie''), Some (JNum 550)]" "[Some (JStr ''credits'')]"]
    by simp
  have d: "decimal 550 \<noteq> decimal 551"
    using decimal_inj [of 550 551] by auto
  have a: "createCacheKey [Some (JStr ''movie''), Some (JNum 550)] \<noteq>
           createCacheKey [Some (JStr ''movie''), Some (JNum 551)]"
    using cache_key_by_renderings [of None "[]" "[]" "[Some (JStr ''movie''), Some (JNum 550)]"
        "[Some (JStr ''movie''), Some (JNum 551)]"] d
    by (simp add: plain_cases render_def)
  have b: "createCacheKey [Some (JStr ''movie''), Some (JNum 550)] \<noteq>
           createCacheKey [Some (JStr ''movie''), Some (JNum 550), Some (JStr ''videos'')]"
    using cache_key_by_renderings [of None "[]" "[]" "[Some (JStr ''movie''), Some (JNum 550)]"
        "[Some (JStr ''movie''), Some (JNum 550), Some (JStr ''videos'')]"]
    by (simp add: plain_cases render_def)
  show ?thesis
    using k s a b by simp
qed

text \<open>
  The claim as written fails twice.  The season number \<open>0\<close> is a present component,
  yet it is skipped, so the key of season 0 of a series is the key of the series with
  \<open>season\<close> appended; and a colon inside a component is not told from the delimiter,
  so the search for \<open>alien:3\<close> on page 1 has the key of the search for \<open>alien\<close> on page 3
  with year 1.
\<close>

theorem cache_key_by_renderings_counterexample:
  "createCacheKey [Some (JStr ''tv''), Some (JNum 1399), Some (JStr ''season''), Some (JNum 0)] =
   createCacheKey [Some (JStr ''tv''), Some (JNum 1399), Some (JStr ''season'')] \<and>
   createCacheKey [Some (JStr ''search''), Some (JStr ''movie''), Some (JStr ''alien:3''),
                   Some (JNum 1), None, None] =
   createCacheKey [Some (JStr ''search''), Some (JStr ''movie''), Some (JStr ''alien''),
                   Some (JNum 3), Some (JNum 1), None]"
  by code_simp

section \<open>The frame of clearing\<close>

text \<open>
  Claim C7.  \<open>clearAllCache(memoryOnly)\<close> always empties the memory tier.  With
  \<open>memoryOnly\<close> the persistent store is left as it is; without it, the store keeps, in
  order and with their values, exactly the entries whose key does not start with
  \<open>filmzimmer:tmdb:\<close>, so a lookup of a namespaced key finds nothing and a lookup of any
  other key finds what it found before.
\<close>

theorem clearAllCache_frame:
  "memoryCache (clearAllCache memoryOnly s) = Map.empty \<and>
   (memoryOnly \<longrightarrow> localStorage (clearAllCache memoryOnly s) = localStorage s) \<and>
   (\<not> memoryOnly \<longrightarrow>
      localStorage (clearAllCache memoryOnly s) =
        filter (\<lambda>(k, v). \<not> startsWith k STORAGE_PREFIX) (localStorage s) \<and>
      map_of (localStorage (clearAllCache memoryOnly s)) k =
        (if startsWith k STORAGE_PREFIX then None else map_of (localStorage s) k))"
  by (simp add: clearAllCache_memory clearAllCache_storage map_of_filter_key)

theorem clearAllCache_frame_witness:
  "memoryCache (clearAllCache False (setInMemoryCache ''a'' (Some (JNum 7)) (Some (JNum 5000)) reloaded))
     = Map.empty \<and>
   localStorage (clearAllCache False (setInMemoryCache ''a'' (Some (JNum 7)) (Some (JNum 5000)) reloaded))
     = [(''filmzimmer:favourites'', Text (JArr [JNum 550]))] \<and>
   localStorage (clearAllCache True (setInMemoryCache ''a'' (Some (JNum 7)) (Some (JNum 5000)) reloaded))
     = localStorage reloaded"
  using clearAllCache_frame [of False "setInMemoryCache ''a'' (Some (JNum 7)) (Some (JNum 5000)) reloaded" "''filmzimmer:favourites''"]
    clearAllCache_frame [of True "setInMemoryCache ''a'' (Some (JNum 7)) (Some (JNum 5000)) reloaded" "''filmzimmer:favourites''"]
  by (simp add: reloaded_def setInMemoryCache_def startsWith_def STORAGE_PREFIX_def)

section \<open>Failures of the caching layer\<close>

text \<open>
  Claim C8.  When the string stored under the key is malformed, \<open>getFromCache(key)\<close>
  does not throw and returns what it would return were the key absent from the
  persistent tier (\<open>null\<close> when the memory tier yields nothing).  When the store is
  full, the deferred \<open>setItem\<close> throws a quota error, yet \<open>setInCache\<close> has put the new
  entry into the memory tier, and running the timer leaves that entry and the
  persistent store as they are; a payload other than \<open>null\<close>, written with \<open>ttl > 0\<close>
  and the clock not reading \<open>0\<close>, is served by \<open>getFromCache\<close> before and after the
  failed write.
\<close>

theorem cache_failures_absorbed:
  "(map_of (localStorage s) (STORAGE_PREFIX @ key) = Some (Garbage g) \<longrightarrow>
      fst (getFromCache key s) = fst (getFromCache key (removeItem (STORAGE_PREFIX @ key) s)) \<and>
      (\<exists>v. fst (getFromCache key s) = Inr v) \<and>
      (fst (getFromMemoryCache key s) = null \<longrightarrow> fst (getFromCache key s) = Inr null)) \<and>
   (quotaExceeded s \<longrightarrow>
      setItem (STORAGE_PREFIX @ key) (JSON_stringify (mk_entry data (now s) ttl))
        (setInCache key data ttl s) = Inl QuotaExceededError \<and>
      memoryCache (setInCache key data ttl s) key = Some (mk_entry data (now s) ttl) \<and>
      memoryCache (runTimers (setInCache key data ttl s)) key = Some (mk_entry data (now s) ttl) \<and>
      localStorage (runTimers (setInCache key data ttl s)) = localStorage s) \<and>
   (quotaExceeded s \<and> 0 < n \<and> now s \<noteq> 0 \<and> d \<noteq> JNull \<longrightarrow>
      fst (getFromCache key (setInCache key (Some d) (Some (JNum n)) s)) = Inr (Some d) \<and>
      fst (getFromCache key (runTimers (setInCache key (Some d) (Some (JNum n)) s))) =
        Inr (Some d))"
  by (simp add: getFromCache_fst getFromMemoryCache_fst removeItem_fields decoded_def setItem_def
      setInCache_fields runTimers_rest runTimers_full served_mk_entry)

theorem cache_failures_absorbed_witness:
  "map_of (localStorage damaged) (STORAGE_PREFIX @ ''b'') = Some (Garbage ''{broken'') \<and>
   quotaExceeded damaged \<and> (0::int) < 100 \<and> now damaged \<noteq> 0 \<and> JNum 7 \<noteq> JNull \<and>
   fst (getFromCache ''b'' damaged) = Inr null \<and>
   memoryCache (runTimers (setInCache ''b'' (Some (JNum 7)) (Some (JNum 100)) damaged)) ''b'' =
     Some (mk_entry (Some (JNum 7)) 3000 (Some (JNum 100))) \<and>
   localStorage (runTimers (setInCache ''b'' (Some (JNum 7)) (Some (JNum 100)) damaged)) =
     [(''filmzimmer:tmdb:b'', Garbage ''{broken'')] \<and>
   fst (getFromCache ''b'' (runTimers (setInCache ''b'' (Some (JNum 7)) (Some (JNum 100)) damaged))) =
     Inr (Some (JNum 7))"
proof -
  have g: "map_of (localStorage damaged) (STORAGE_PREFIX @ ''b'') = Some (Garbage ''{broken'')"
    by (simp add: damaged_def STORAGE_PREFIX_def)
  have q: "quotaExceeded damaged"
    by (simp add: damaged_def)
  have m: "fst (getFromMemoryCache ''b'' damaged) = null"
    by (simp add: getFromMemoryCache_fst damaged_def)
  have n: "now damaged = 3000"
    and l: "localStorage damaged = [(''filmzimmer:tmdb:b'', Garbage ''{broken'')]"
    by (simp_all add: damaged_def)
  have z: "now damaged \<noteq> 0"
    by (simp add: n)
  have p: "(0::int) < 100" and j: "JNum 7 \<noteq> JNull"
    by simp_all
  from cache_failures_absorbed
    [of damaged "''b''" "''{broken''" "Some (JNum 7)" "Some (JNum 100)" 100 "JNum 7"]
    g q m z p j
  have "fst (getFromCache ''b'' damaged) = Inr null \<and>
        memoryCache (runTimers (setInCache ''b'' (Some (JNum 7)) (Some (JNum 100)) damaged)) ''b'' =
          Some (mk_entry (Some (JNum 7)) (now damaged) (Some (JNum 100))) \<and>
        localStorage (runTimers (setInCache ''b'' (Some (JNum 7)) (Some (JNum 100)) damaged)) =
          localStorage damaged \<and>
        fst (getFromCache ''b''
              (runTimers (setInCache ''b'' (Some (JNum 7)) (Some (JNum 100)) damaged))) =
          Inr (Some (JNum 7))"
    by blast
  then show ?thesis
    using g q n l by simp
qed

section \<open>Non-2xx responses\<close>

text \<open>
  Claim C9 at the response it fails on: status 500 with the body \<open>null\<close>.  The body
  decodes, so the fallback \<open>{}\<close> is not used, and the read of \<open>status_message\<close> on
  \<open>null\<close> throws: the rejection is a TypeError, whose message carries neither a status
  message nor the status 500.
\<close>

theorem non_2xx_null_body:
  "fst (fetchFromApi (\<lambda>u. Resolved \<lparr>status = 500, body = Text JNull\<rparr>) u s) = Inl TypeError"
  by (simp add: fetchFromApi_def Let_def ok_def)

theorem non_2xx_null_body_witness:
  "fst (fetchFromApi (\<lambda>u. Resolved \<lparr>status = 500, body = Text JNull\<rparr>)
          (buildUrl ''/movie/550'' [] reloaded) reloaded) = Inl TypeError"
  using non_2xx_null_body [of "buildUrl ''/movie/550'' [] reloaded" reloaded] by simp

section \<open>A \<open>null\<close> payload\<close>




end
